theory Spec2Isabelle
  imports Complex_Main
begin

section \<open>Data model of the KnoRa frontend\<close>

text \<open>
  The sources are the Next.js frontend of the repository: the zustand store
  (\<^verbatim>\<open>frontend/lib/store.ts\<close>), the axios service with its retry loop
  (\<^verbatim>\<open>lib/api\<close>), the query tab (\<^verbatim>\<open>IntelligentQueryTab\<close>), the upload component
  (\<^verbatim>\<open>FileUpload\<close>) and the ingestion tab.  A JavaScript \<^verbatim>\<open>number\<close> is a \<open>real\<close>
  (no arithmetic below leaves the integers and the dyadic fractions), except where the
  source only ever holds a non-negative integer (a loop counter, an HTTP status, a byte
  count), which is a \<open>nat\<close>.  A JavaScript string is a \<open>string\<close>, its characters
  the code units up to \<open>0xFF\<close>; the query text, which the code trims, is kept as the
  list of its UTF-16 code units.  Record fields are global names in HOL, so the fields of
  the interfaces other than \<open>AppState\<close> and \<open>ProcessedDocument\<close> carry a short
  prefix.
\<close>

type_synonym number = real

type_synonym code_unit = nat

type_synonym js_string = "code_unit list"

record DocumentChunk =
  dc_text :: string
  dc_size :: number
  dc_chunk_id :: number

record ProcessedDocument =
  file_path :: string
  file_name :: string
  file_type :: string
  pd_text :: string
  chunks :: "DocumentChunk list"
  num_chunks :: number
  file_size :: number

record SearchResult =
  sr_file_path :: string
  sr_file_name :: string
  sr_file_type :: string
  sr_chunk_id :: number
  sr_chunk_size :: number
  sr_text :: string
  similarity_score :: number

record VectorStoreStats =
  total_vectors :: number
  total_documents :: number
  embedding_model :: string
  dimension :: number
  store_path :: string
  vs_documents :: "string list"
  storage_size_mb :: number

datatype tab = Ingestion | Query | Analytics

datatype AbortSignal = AbortSignal (aborted: bool)

subsection \<open>The store: \<^verbatim>\<open>AppState\<close> and zustand's \<^verbatim>\<open>set\<close>\<close>

text \<open>The data fields of \<^verbatim>\<open>AppState\<close>; its methods are the functions below.\<close>

record AppState =
  activeTab :: tab
  error :: "string option"
  documents :: "ProcessedDocument list"
  searchResults :: "SearchResult list"
  currentQuery :: js_string
  currentAnswer :: "string option"
  stats :: "VectorStoreStats option"
  chunkSize :: number
  chunkOverlap :: number
  searchK :: number
  scoreThreshold :: number
  temperature :: number
  maxTokens :: number
  selectedModel :: string
  backendConnected :: bool
  isSearching :: bool
  searchAbortSignal :: "AbortSignal option"

text \<open>
  \<^verbatim>\<open>set({k1: v1, ...})\<close> merges the keys of its argument into the state and keeps
  every other key.  The argument object is a list of assignments, one constructor per
  key of the state.
\<close>

datatype assignment =
    Set_activeTab tab
  | Set_error "string option"
  | Set_documents "ProcessedDocument list"
  | Set_searchResults "SearchResult list"
  | Set_currentQuery js_string
  | Set_currentAnswer "string option"
  | Set_stats "VectorStoreStats option"
  | Set_chunkSize number
  | Set_chunkOverlap number
  | Set_searchK number
  | Set_scoreThreshold number
  | Set_temperature number
  | Set_maxTokens number
  | Set_selectedModel string
  | Set_backendConnected bool
  | Set_isSearching bool
  | Set_searchAbortSignal "AbortSignal option"

fun assign :: "assignment \<Rightarrow> AppState \<Rightarrow> AppState" where
  "assign (Set_activeTab v) s = s\<lparr>activeTab := v\<rparr>"
| "assign (Set_error v) s = s\<lparr>error := v\<rparr>"
| "assign (Set_documents v) s = s\<lparr>documents := v\<rparr>"
| "assign (Set_searchResults v) s = s\<lparr>searchResults := v\<rparr>"
| "assign (Set_currentQuery v) s = s\<lparr>currentQuery := v\<rparr>"
| "assign (Set_currentAnswer v) s = s\<lparr>currentAnswer := v\<rparr>"
| "assign (Set_stats v) s = s\<lparr>stats := v\<rparr>"
| "assign (Set_chunkSize v) s = s\<lparr>chunkSize := v\<rparr>"
| "assign (Set_chunkOverlap v) s = s\<lparr>chunkOverlap := v\<rparr>"
| "assign (Set_searchK v) s = s\<lparr>searchK := v\<rparr>"
| "assign (Set_scoreThreshold v) s = s\<lparr>scoreThreshold := v\<rparr>"
| "assign (Set_temperature v) s = s\<lparr>temperature := v\<rparr>"
| "assign (Set_maxTokens v) s = s\<lparr>maxTokens := v\<rparr>"
| "assign (Set_selectedModel v) s = s\<lparr>selectedModel := v\<rparr>"
| "assign (Set_backendConnected v) s = s\<lparr>backendConnected := v\<rparr>"
| "assign (Set_isSearching v) s = s\<lparr>isSearching := v\<rparr>"
| "assign (Set_searchAbortSignal v) s = s\<lparr>searchAbortSignal := v\<rparr>"

definition set_state :: "assignment list \<Rightarrow> AppState \<Rightarrow> AppState" where
  "set_state partial s = foldl (\<lambda>acc a. assign a acc) s partial"

text \<open>\<^verbatim>\<open>set((state) => ({...}))\<close>: the argument object is computed from the state.\<close>

definition set_state_fn :: "(AppState \<Rightarrow> assignment list) \<Rightarrow> AppState \<Rightarrow> AppState" where
  "set_state_fn f s = set_state (f s) s"

definition initial_state :: AppState where
  "initial_state =
     \<lparr> activeTab = Query, error = None, documents = [], searchResults = [],
       currentQuery = [], currentAnswer = None, stats = None,
       chunkSize = 1000, chunkOverlap = 200, searchK = 5, scoreThreshold = 0,
       temperature = 7 / 10, maxTokens = 2048,
       selectedModel = ''mixtral-8x7b-32768'',
       backendConnected = False, isSearching = False, searchAbortSignal = None \<rparr>"

definition setDocuments :: "ProcessedDocument list \<Rightarrow> AppState \<Rightarrow> AppState" where
  "setDocuments docs = set_state [Set_documents docs]"

definition addDocument :: "ProcessedDocument \<Rightarrow> AppState \<Rightarrow> AppState" where
  "addDocument doc = set_state_fn (\<lambda>state. [Set_documents (documents state @ [doc])])"

definition removeDocument :: "string \<Rightarrow> AppState \<Rightarrow> AppState" where
  "removeDocument filePath =
     set_state_fn (\<lambda>state. [Set_documents (filter (\<lambda>d. file_path d \<noteq> filePath) (documents state))])"

definition setSearchResults :: "SearchResult list \<Rightarrow> AppState \<Rightarrow> AppState" where
  "setSearchResults results = set_state [Set_searchResults results]"

definition clearSearchResults :: "AppState \<Rightarrow> AppState" where
  "clearSearchResults = set_state [Set_searchResults []]"

definition setCurrentQuery :: "js_string \<Rightarrow> AppState \<Rightarrow> AppState" where
  "setCurrentQuery query = set_state [Set_currentQuery query]"

definition setCurrentAnswer :: "string option \<Rightarrow> AppState \<Rightarrow> AppState" where
  "setCurrentAnswer answer = set_state [Set_currentAnswer answer]"

definition clearQueryState :: "AppState \<Rightarrow> AppState" where
  "clearQueryState =
     set_state [Set_currentQuery [], Set_currentAnswer None, Set_searchResults []]"

definition setIsSearching :: "bool \<Rightarrow> AppState \<Rightarrow> AppState" where
  "setIsSearching searching = set_state [Set_isSearching searching]"

subsection \<open>The persisted projection\<close>

text \<open>
  \<^verbatim>\<open>partialize\<close> builds the object that the persist middleware writes to storage: an
  object literal, here the list of its keys with their values in the order written.
\<close>

datatype persisted_value = PTab tab | PNum number | PStr string

definition partialize :: "AppState \<Rightarrow> (string \<times> persisted_value) list" where
  "partialize state =
     [ (''activeTab'', PTab (activeTab state)),
       (''chunkSize'', PNum (chunkSize state)),
       (''chunkOverlap'', PNum (chunkOverlap state)),
       (''searchK'', PNum (searchK state)),
       (''scoreThreshold'', PNum (scoreThreshold state)),
       (''temperature'', PNum (temperature state)),
       (''maxTokens'', PNum (maxTokens state)),
       (''selectedModel'', PStr (selectedModel state)) ]"

section \<open>The API service\<close>

subsection \<open>Requests, responses and thrown values\<close>

record SearchRequest =
  rq_query :: js_string
  rq_k :: number
  rq_score_threshold :: number

text \<open>
  \<^verbatim>\<open>results\<close> is optional here because the caller guards it with \<^verbatim>\<open>|| []\<close>.
\<close>

record SearchResponse =
  rs_results :: "SearchResult list option"
  rs_query :: js_string
  rs_count :: number

record AnswerRequest =
  aq_query :: js_string
  retrieved_chunks :: "SearchResult list"
  aq_max_tokens :: number
  aq_temperature :: number

text \<open>
  An element of \<^verbatim>\<open>sources\<close> is a string or an object of which the caller reads
  \<^verbatim>\<open>file_name\<close> and \<^verbatim>\<open>source\<close>.  \<open>None\<close> for the whole field is a falsy value
  or a value that is not an array.
\<close>

datatype source_entry =
    Source_string string
  | Source_object (src_file_name: "string option") (src_source: "string option")

record AnswerResponse =
  answer :: string
  sources :: "source_entry list option"
  context_used :: string
  num_sources :: number
  llm_type :: string
  model_used :: string

record ProcessFileResponse =
  success :: bool
  pf_message :: string
  document :: "ProcessedDocument option"

text \<open>
  The part of \<^verbatim>\<open>error.response\<close> that the code reads: the status, the status text and
  \<^verbatim>\<open>data.message\<close>.
\<close>

record ErrorResponse =
  status :: nat
  statusText :: string
  data_message :: "string option"

text \<open>
  What a rejected promise carries: an \<^verbatim>\<open>APIError\<close>, an axios error with its
  \<^verbatim>\<open>code\<close>, \<^verbatim>\<open>response\<close> and \<^verbatim>\<open>message\<close>, any other \<^verbatim>\<open>Error\<close> with its message,
  or \<^verbatim>\<open>undefined\<close> (the initial value of \<^verbatim>\<open>lastError\<close>).
\<close>

datatype thrown =
    APIError string
  | AxiosError (code: "string option") (response: "ErrorResponse option") (ax_message: string)
  | OtherError string
  | Undefined

datatype 'r settled = Resolved 'r | Rejected thrown

fun isAxiosError :: "thrown \<Rightarrow> bool" where
  "isAxiosError (AxiosError c r m) = True"
| "isAxiosError _ = False"

text \<open>JavaScript truthiness of a string: it is not empty.\<close>

definition truthy :: "'a list \<Rightarrow> bool" where
  "truthy str = (str \<noteq> [])"

text \<open>The \<^verbatim>\<open>switch\<close> over \<^verbatim>\<open>error.response?.status\<close> of \<^verbatim>\<open>getErrorMessage\<close>.\<close>

definition status_switch :: "ErrorResponse \<Rightarrow> string" where
  "status_switch resp =
     (if status resp = 400 then ''Invalid request - check your input''
      else if status resp = 404 then ''Resource not found''
      else if status resp = 408 then ''Request timeout''
      else if status resp = 413 then ''File too large''
      else if status resp = 429 then ''Too many requests - please wait''
      else if status resp = 500 then ''Server error - please try again later''
      else if status resp = 503 then ''Server is unavailable - please try again later''
      else if truthy (statusText resp) then statusText resp
      else ''Unknown error occurred'')"

fun getErrorMessage :: "thrown \<Rightarrow> string" where
  "getErrorMessage (APIError m) = m"
| "getErrorMessage (AxiosError c r m) =
     (if c = Some ''ECONNABORTED'' then ''Request timeout - backend is not responding''
      else if c = Some ''ERR_NETWORK'' then ''Network error - check your connection and backend status''
      else (case r of
          None \<Rightarrow> ''Network error - check your connection and backend status''
        | Some resp \<Rightarrow>
            (case data_message resp of
               None \<Rightarrow> status_switch resp
             | Some msg \<Rightarrow> if truthy msg then msg else status_switch resp)))"
| "getErrorMessage (OtherError m) = (if truthy m then m else ''Unknown error occurred'')"
| "getErrorMessage Undefined = ''Unknown error occurred''"

subsection \<open>Retry logic\<close>

record RetryConfig =
  maxRetries :: nat
  delayMs :: number
  backoffMultiplier :: number

definition DEFAULT_RETRY_CONFIG :: RetryConfig where
  "DEFAULT_RETRY_CONFIG = \<lparr> maxRetries = 2, delayMs = 500, backoffMultiplier = 3 / 2 \<rparr>"

text \<open>The status of \<^verbatim>\<open>error.response?.status\<close>: absent when there is no response.\<close>

definition response_status :: "thrown \<Rightarrow> nat option" where
  "response_status err =
     (case err of AxiosError c r m \<Rightarrow> map_option status r | _ \<Rightarrow> None)"

definition shouldRetry :: "thrown \<Rightarrow> nat \<Rightarrow> nat \<Rightarrow> bool" where
  "shouldRetry err attemptNumber maxRetries' =
     (if attemptNumber \<ge> maxRetries' then False
      else if \<not> isAxiosError err then False
      else if code err = Some ''ECONNABORTED'' \<or> code err = Some ''ERR_NETWORK'' then True
      else if (case response_status err of None \<Rightarrow> False | Some st \<Rightarrow> st \<noteq> 0 \<and> st \<ge> 500) then True
      else if response_status err = Some 408 \<or> response_status err = Some 429 then True
      else False)"

text \<open>
  What the program does to the outside, in order: requests sent through the axios client,
  waits of \<^verbatim>\<open>delay(ms)\<close>, toasts and console errors.  A toast whose text formats a
  number keeps its arguments instead of the formatted text.
\<close>

record File =
  f_name :: string
  f_size :: nat

datatype request =
    Post_search SearchRequest
  | Post_answer AnswerRequest
  | Post_upload File
  | Delete_document string

datatype message =
    Text string
  | File_exceeds_limit string nat nat
  | File_type_not_supported string "string list"
  | Processed string number

datatype event =
    Request request
  | Delay number
  | Toast_error message
  | Toast_success message
  | Console_error string thrown

text \<open>
  The \<^verbatim>\<open>for\<close> loop of \<^verbatim>\<open>apiService.search\<close> and \<^verbatim>\<open>apiService.generateAnswer\<close>,
  which differ in the request only.  \<open>post n\<close> is how the \<open>n\<close>-th call of
  \<^verbatim>\<open>apiClient.post\<close> settles.  The result is the returned response or the thrown value,
  with the requests and waits made.
\<close>

function retry_loop ::
  "RetryConfig \<Rightarrow> request \<Rightarrow> (nat \<Rightarrow> 'r settled) \<Rightarrow> nat \<Rightarrow> thrown \<Rightarrow> (thrown + 'r) \<times> event list"
where
  "retry_loop retryConfig req post attempt lastError =
     (if attempt < maxRetries retryConfig then
        (case post attempt of
           Resolved resp \<Rightarrow> (Inr resp, [Request req])
         | Rejected err \<Rightarrow>
             if shouldRetry err attempt (maxRetries retryConfig) then
               (case retry_loop retryConfig req post (attempt + 1) err of
                  (outcome, evs) \<Rightarrow>
                    (outcome,
                     Request req
                       # Delay (delayMs retryConfig * backoffMultiplier retryConfig ^ attempt)
                       # evs))
             else (Inl err, [Request req]))
      else (Inl lastError, []))"
  by pat_completeness auto
termination
  by (relation "measure (\<lambda>(retryConfig, req, post, attempt, lastError). maxRetries retryConfig - attempt)")
     auto

declare retry_loop.simps [simp del]

definition apiService_search ::
  "(nat \<Rightarrow> SearchResponse settled) \<Rightarrow> SearchRequest \<Rightarrow> (thrown + SearchResponse) \<times> event list"
where
  "apiService_search post data = retry_loop DEFAULT_RETRY_CONFIG (Post_search data) post 0 Undefined"

definition apiService_generateAnswer ::
  "(nat \<Rightarrow> AnswerResponse settled) \<Rightarrow> AnswerRequest \<Rightarrow> (thrown + AnswerResponse) \<times> event list"
where
  "apiService_generateAnswer post data =
     retry_loop DEFAULT_RETRY_CONFIG (Post_answer data) post 0 Undefined"

text \<open>
  The transient classes as the specification lists them: a timeout, a network error, a
  status of 500 or more, 408 and 429.  An axios timeout carries the code
  \<^verbatim>\<open>ECONNABORTED\<close> and an axios network error the code \<^verbatim>\<open>ERR_NETWORK\<close>.
\<close>

fun is_timeout :: "thrown \<Rightarrow> bool" where
  "is_timeout (AxiosError c r m) = (c = Some ''ECONNABORTED'')"
| "is_timeout _ = False"

fun is_network_error :: "thrown \<Rightarrow> bool" where
  "is_network_error (AxiosError c r m) = (c = Some ''ERR_NETWORK'')"
| "is_network_error _ = False"

fun http_status :: "thrown \<Rightarrow> nat option" where
  "http_status (AxiosError c (Some resp) m) = Some (status resp)"
| "http_status _ = None"

definition transient_class :: "thrown \<Rightarrow> bool" where
  "transient_class err =
     (is_timeout err \<or> is_network_error err
      \<or> (case http_status err of None \<Rightarrow> False | Some st \<Rightarrow> st \<ge> 500 \<or> st = 408 \<or> st = 429))"

text \<open>The requests of a trace.\<close>

fun requests :: "event list \<Rightarrow> request list" where
  "requests [] = []"
| "requests (Request r # evs) = r # requests evs"
| "requests (_ # evs) = requests evs"

section \<open>The query tab\<close>

text \<open>
  \<^verbatim>\<open>String.prototype.trim\<close> removes white space and line terminators from both ends:
  TAB, LF, VT, FF, CR, SPACE, NBSP, the other space separators of Unicode (\<open>U+1680\<close>,
  \<open>U+2000\<close> to \<open>U+200A\<close>, \<open>U+202F\<close>, \<open>U+205F\<close>, \<open>U+3000\<close>), the line and
  paragraph separators \<open>U+2028\<close> and \<open>U+2029\<close>, and \<open>U+FEFF\<close>.
\<close>

definition is_js_whitespace :: "code_unit \<Rightarrow> bool" where
  "is_js_whitespace c =
     (c \<in> {9, 10, 11, 12, 13, 32, 160, 5760, 8232, 8233, 8239, 8287, 12288, 65279}
      \<or> (8192 \<le> c \<and> c \<le> 8202))"

definition js_trim :: "js_string \<Rightarrow> js_string" where
  "js_trim str = rev (dropWhile is_js_whitespace (rev (dropWhile is_js_whitespace str)))"

text \<open>
  The component state of \<^verbatim>\<open>IntelligentQueryTab\<close> that \<^verbatim>\<open>handleSearch\<close> writes:
  \<^verbatim>\<open>error\<close>, \<^verbatim>\<open>answerSources\<close> and whether \<^verbatim>\<open>abortController\<close> holds a controller.
\<close>

record QueryTab =
  qt_error :: "string option"
  answerSources :: "string list"
  abortController :: bool

text \<open>
  What \<^verbatim>\<open>handleSearch\<close> meets while it runs: how the posts of the two services settle,
  and the value of \<^verbatim>\<open>controller.signal.aborted\<close> when the awaited search and the
  awaited answer settle.  Between two awaits the code runs without interruption, so
  these are the only two moments at which the flag can have changed.
\<close>

record search_env =
  search_post :: "nat \<Rightarrow> SearchResponse settled"
  answer_post :: "nat \<Rightarrow> AnswerResponse settled"
  aborted_after_search :: bool
  aborted_after_answer :: bool

text \<open>
  The source names of an answer:
  \<^verbatim>\<open>sources.map(s => typeof s === "string" ? s : s.file_name || s.source || "").filter(Boolean)\<close>.
\<close>

definition source_name :: "source_entry \<Rightarrow> string" where
  "source_name s =
     (case s of
        Source_string str \<Rightarrow> str
      | Source_object fn src \<Rightarrow>
          (case fn of
             Some n \<Rightarrow> if truthy n then n else (case src of Some x \<Rightarrow> x | None \<Rightarrow> [])
           | None \<Rightarrow> (case src of Some x \<Rightarrow> x | None \<Rightarrow> [])))"

definition sourceDocs :: "AnswerResponse \<Rightarrow> string list" where
  "sourceDocs resp =
     (case sources resp of
        None \<Rightarrow> []
      | Some srcs \<Rightarrow> filter truthy (map source_name srcs))"

text \<open>The \<^verbatim>\<open>finally\<close> block of \<^verbatim>\<open>handleSearch\<close>, given the flag at that moment.\<close>

definition finally_block :: "bool \<Rightarrow> AppState \<times> QueryTab \<Rightarrow> AppState \<times> QueryTab" where
  "finally_block is_aborted w =
     (if \<not> is_aborted
      then (setIsSearching False (fst w), (snd w)\<lparr>abortController := False\<rparr>)
      else w)"

text \<open>The inner \<^verbatim>\<open>try\<close> of \<^verbatim>\<open>handleSearch\<close>: answer generation with its \<^verbatim>\<open>catch\<close>.\<close>

definition generate_phase ::
  "search_env \<Rightarrow> SearchResult list \<Rightarrow> AppState \<times> QueryTab \<Rightarrow> (AppState \<times> QueryTab) \<times> event list"
where
  "generate_phase env results w =
     (let s = fst w; t = snd w in
      case apiService_generateAnswer (answer_post env)
             \<lparr> aq_query = currentQuery s, retrieved_chunks = results,
               aq_max_tokens = maxTokens s, aq_temperature = temperature s \<rparr> of
        (Inr answerResponse, evs) \<Rightarrow>
          if aborted_after_answer env then (finally_block True (s, t), evs)
          else if truthy (answer answerResponse) then
            (finally_block False
               (setCurrentAnswer (Some (answer answerResponse)) s,
                t\<lparr>answerSources := sourceDocs answerResponse, qt_error := None\<rparr>),
             evs @ [Toast_success (Text ''Answer generated successfully'')])
          else
            (finally_block False
               (setCurrentAnswer (Some []) s,
                t\<lparr>qt_error := Some ''Failed to generate answer - empty response''\<rparr>),
             evs)
      | (Inl answerErr, evs) \<Rightarrow>
          (finally_block (aborted_after_answer env)
             (setCurrentAnswer (Some []) s,
              t\<lparr>qt_error := Some (''Failed to generate answer: '' @ getErrorMessage answerErr)\<rparr>),
           evs @ [Console_error ''Answer generation error:'' answerErr]))"

definition handleSearch ::
  "search_env \<Rightarrow> AppState \<times> QueryTab \<Rightarrow> (AppState \<times> QueryTab) \<times> event list"
where
  "handleSearch env w =
     (let s = fst w; t = snd w in
      if \<not> truthy (js_trim (currentQuery s)) then
        ((s, t), [Toast_error (Text ''Please enter a query'')])
      else
        let t1 = t\<lparr>qt_error := None, answerSources := []\<rparr>;
            s1 = clearSearchResults s;
            t2 = t1\<lparr>abortController := True\<rparr>;
            s2 = setIsSearching True s1
        in
        case apiService_search (search_post env)
               \<lparr> rq_query = currentQuery s, rq_k = searchK s,
                 rq_score_threshold = scoreThreshold s \<rparr> of
          (Inr searchResponse, evs) \<Rightarrow>
            if aborted_after_search env then (finally_block True (s2, t2), evs)
            else
              let results = (case rs_results searchResponse of None \<Rightarrow> [] | Some rs \<Rightarrow> rs) in
              if length results = 0 then
                (finally_block False
                   (setIsSearching False (setSearchResults [] (setCurrentAnswer (Some []) s2)),
                    t2\<lparr>qt_error := Some ''No relevant documents found for this query''\<rparr>),
                 evs)
              else
                (case generate_phase env results (setSearchResults results s2, t2) of
                   (w', evs') \<Rightarrow> (w', evs @ evs'))
        | (Inl searchErr, evs) \<Rightarrow>
            if aborted_after_search env then (finally_block True (s2, t2), evs)
            else
              (finally_block False
                 (setSearchResults [] (setCurrentAnswer (Some []) s2),
                  t2\<lparr>qt_error := Some (''Search failed: '' @ getErrorMessage searchErr)\<rparr>),
               evs @ [Console_error ''Search error:'' searchErr]))"

text \<open>\<^verbatim>\<open>handleClear\<close> of the query tab.\<close>

definition handleClear :: "AppState \<times> QueryTab \<Rightarrow> AppState \<times> QueryTab" where
  "handleClear w = (clearQueryState (fst w), (snd w)\<lparr>answerSources := [], qt_error := None\<rparr>)"

section \<open>The upload component and the ingestion tab\<close>

record SupportedFormat =
  extension :: string
  fmt_name :: string
  max_size_mb :: number

definition DEFAULT_FORMATS :: "SupportedFormat list" where
  "DEFAULT_FORMATS =
     [ \<lparr> extension = ''.pdf'', fmt_name = ''PDF Document'', max_size_mb = 100 \<rparr>,
       \<lparr> extension = ''.txt'', fmt_name = ''Plain Text'', max_size_mb = 100 \<rparr>,
       \<lparr> extension = ''.docx'', fmt_name = ''Word Document'', max_size_mb = 100 \<rparr>,
       \<lparr> extension = ''.doc'', fmt_name = ''Word Document (97-2003)'', max_size_mb = 100 \<rparr>,
       \<lparr> extension = ''.csv'', fmt_name = ''CSV Spreadsheet'', max_size_mb = 100 \<rparr>,
       \<lparr> extension = ''.xlsx'', fmt_name = ''Excel Spreadsheet'', max_size_mb = 100 \<rparr>,
       \<lparr> extension = ''.xls'', fmt_name = ''Excel Spreadsheet (97-2003)'', max_size_mb = 100 \<rparr>,
       \<lparr> extension = ''.md'', fmt_name = ''Markdown'', max_size_mb = 100 \<rparr>,
       \<lparr> extension = ''.pptx'', fmt_name = ''PowerPoint'', max_size_mb = 100 \<rparr>,
       \<lparr> extension = ''.json'', fmt_name = ''JSON Data'', max_size_mb = 100 \<rparr> ]"

text \<open>
  \<^verbatim>\<open>toLowerCase\<close> on the code units up to \<open>0xFF\<close>: the letters A to Z and the
  accented capitals \<open>0xC0\<close> to \<open>0xDE\<close> (without the multiplication sign \<open>0xD7\<close>)
  move up by 32.
\<close>

definition lower_char :: "char \<Rightarrow> char" where
  "lower_char c =
     (let n = (of_char c :: nat) in
      if (65 \<le> n \<and> n \<le> 90) \<or> (192 \<le> n \<and> n \<le> 222 \<and> n \<noteq> 215)
      then char_of (n + 32) else c)"

definition toLowerCase :: "string \<Rightarrow> string" where
  "toLowerCase str = map lower_char str"

text \<open>\<^verbatim>\<open>str.split(sep)\<close> for a separator of one character; the result is never empty.\<close>

fun split_on :: "char \<Rightarrow> string \<Rightarrow> string list" where
  "split_on sep [] = [[]]"
| "split_on sep (c # cs) =
     (if c = sep then [] # split_on sep cs
      else (case split_on sep cs of
              [] \<Rightarrow> [[c]]
            | w # ws \<Rightarrow> (c # w) # ws))"

text \<open>\<^verbatim>\<open>Array.prototype.pop\<close>, read for its value: \<^verbatim>\<open>undefined\<close> on an empty array.\<close>

definition pop :: "'a list \<Rightarrow> 'a option" where
  "pop xs = (case xs of [] \<Rightarrow> None | _ \<Rightarrow> Some (last xs))"

text \<open>
  \<^verbatim>\<open>"." + file.name.split(".").pop()?.toLowerCase()\<close>; string concatenation turns
  \<^verbatim>\<open>undefined\<close> into the text \<^verbatim>\<open>undefined\<close>.
\<close>

definition file_extension :: "File \<Rightarrow> string" where
  "file_extension file =
     ''.'' @ (case pop (split_on (CHR ''.'') (f_name file)) of
                None \<Rightarrow> ''undefined''
              | Some seg \<Rightarrow> toLowerCase seg)"

definition maxSizeMB :: nat where
  "maxSizeMB = 100"

text \<open>\<^verbatim>\<open>validateFile\<close>: the verdict and the toast it shows.\<close>

definition validateFile :: "SupportedFormat list \<Rightarrow> File \<Rightarrow> bool \<times> event list" where
  "validateFile supportedFormats file =
     (let ext = file_extension file in
      if f_size file > maxSizeMB * 1024 * 1024 then
        (False, [Toast_error (File_exceeds_limit (f_name file) maxSizeMB (f_size file))])
      else
        let isSupported =
              list_ex (\<lambda>fmt. toLowerCase (extension fmt) = toLowerCase ext) supportedFormats
        in if \<not> isSupported then
             (False, [Toast_error (File_type_not_supported ext (map extension supportedFormats))])
           else (True, []))"

text \<open>
  One turn of the loop of \<^verbatim>\<open>uploadFiles\<close>.  \<open>upload file\<close> is how the upload of
  that file settles.  The progress display of the component is left out.
\<close>

definition upload_one ::
  "(File \<Rightarrow> ProcessFileResponse settled) \<Rightarrow> File \<Rightarrow> AppState \<Rightarrow> AppState \<times> event list"
where
  "upload_one upload file s =
     (case upload file of
        Resolved resp \<Rightarrow>
          (case document resp of
             Some doc \<Rightarrow>
               if success resp then
                 (addDocument doc s,
                  [Request (Post_upload file),
                   Toast_success (Processed (file_name doc) (num_chunks doc))])
               else
                 (s, [Request (Post_upload file), Toast_error (Text (''Failed: '' @ f_name file))])
           | None \<Rightarrow>
               (s, [Request (Post_upload file), Toast_error (Text (''Failed: '' @ f_name file))]))
      | Rejected err \<Rightarrow>
          (s, [Request (Post_upload file), Toast_error (Text (''Failed: '' @ f_name file))]))"

fun uploadFiles ::
  "(File \<Rightarrow> ProcessFileResponse settled) \<Rightarrow> File list \<Rightarrow> AppState \<Rightarrow> AppState \<times> event list"
where
  "uploadFiles upload [] s = (s, [])"
| "uploadFiles upload (file # rest) s =
     (case upload_one upload file s of
        (s1, evs1) \<Rightarrow>
          (case uploadFiles upload rest s1 of
             (s2, evs2) \<Rightarrow> (s2, evs1 @ evs2)))"

definition handleFilesSelected ::
  "SupportedFormat list \<Rightarrow> (File \<Rightarrow> ProcessFileResponse settled) \<Rightarrow> File list \<Rightarrow> AppState
     \<Rightarrow> AppState \<times> event list"
where
  "handleFilesSelected supportedFormats upload selectedFiles s =
     (let validFiles = filter (\<lambda>file. fst (validateFile supportedFormats file)) selectedFiles;
          toasts = concat (map (\<lambda>file. snd (validateFile supportedFormats file)) selectedFiles)
      in if length validFiles > 0 then
           (case uploadFiles upload validFiles s of (s', evs) \<Rightarrow> (s', toasts @ evs))
         else (s, toasts))"

text \<open>
  \<^verbatim>\<open>handleDelete\<close> of the ingestion tab.  \<open>deleted\<close> is how the request to the
  backend settles.  The check mark at the head of the success toast is left out.
\<close>

definition handleDelete :: "unit settled \<Rightarrow> string \<Rightarrow> AppState \<Rightarrow> AppState \<times> event list" where
  "handleDelete deleted filePath s =
     (case deleted of
        Resolved u \<Rightarrow>
          (removeDocument filePath s,
           [Request (Delete_document filePath),
            Toast_success (Text ''Document removed from vector store'')])
      | Rejected err \<Rightarrow>
          (s, [Request (Delete_document filePath),
               Toast_error (Text ''Failed to delete document''),
               Console_error ''Delete error:'' err]))"

section \<open>The chunker\<close>

record Chunk =
  ch_index :: nat
  ch_offset :: nat
  ch_text :: string

datatype chunk_error = Configuration_error | Empty_document

text \<open>
  Modelled from the spec: the cutting loop of the Chunker, a component of the backend,
  which is not among the sources (they hold the frontend only) and which section 4.1 of
  the specification describes.  Chunks are cut at the offsets \<open>0\<close>, \<open>C - O\<close>,
  \<open>2 (C - O)\<close>, ...: each is the \<open>C\<close> characters from its offset, the final one
  what is left.  The text is covered once a chunk reaches its end, so that chunk is the
  final one; this is what makes a text no longer than the chunk size one chunk equal to
  the whole text.
\<close>

function chunk_from :: "nat \<Rightarrow> nat \<Rightarrow> string \<Rightarrow> nat \<Rightarrow> nat \<Rightarrow> Chunk list" where
  "chunk_from C O' txt idx start =
     (if C \<le> O' then []
      else if start + C \<ge> length txt then
        [\<lparr> ch_index = idx, ch_offset = start, ch_text = take C (drop start txt) \<rparr>]
      else
        \<lparr> ch_index = idx, ch_offset = start, ch_text = take C (drop start txt) \<rparr>
          # chunk_from C O' txt (idx + 1) (start + (C - O')))"
  by pat_completeness auto
termination
  by (relation "measure (\<lambda>(C, O', txt, idx, start). length txt - start)") auto

declare chunk_from.simps [simp del]

text \<open>
  Modelled from the spec: the Chunker of section 4.1.  An overlap that is not below the
  chunk size is a configuration error with no chunking attempted; a zero-length text
  yields zero chunks.
\<close>

definition chunker :: "nat \<Rightarrow> nat \<Rightarrow> string \<Rightarrow> chunk_error + Chunk list" where
  "chunker C O' txt =
     (if O' \<ge> C then Inl Configuration_error
      else if txt = [] then Inr []
      else Inr (chunk_from C O' txt 0 0))"

text \<open>
  Modelled from the spec: the caller of the Chunker (ingestion, in the backend), which
  rejects a document with zero chunks as empty.
\<close>

definition ingest_text :: "nat \<Rightarrow> nat \<Rightarrow> string \<Rightarrow> chunk_error + Chunk list" where
  "ingest_text C O' txt =
     (case chunker C O' txt of
        Inl e \<Rightarrow> Inl e
      | Inr cs \<Rightarrow> if cs = [] then Inl Empty_document else Inr cs)"

section \<open>Sample inputs\<close>

text \<open>Concrete states and environments at which the theorems below are evaluated.\<close>

definition sample_doc :: ProcessedDocument where
  "sample_doc =
     \<lparr> file_path = ''uploads/a.txt'', file_name = ''a.txt'', file_type = ''txt'',
       pd_text = ''hello'', chunks = [], num_chunks = 1, file_size = 5 \<rparr>"

definition sample_result :: SearchResult where
  "sample_result =
     \<lparr> sr_file_path = ''uploads/a.txt'', sr_file_name = ''a.txt'', sr_file_type = ''txt'',
       sr_chunk_id = 0, sr_chunk_size = 5, sr_text = ''hello'', similarity_score = 1 \<rparr>"

definition sample_answer :: AnswerResponse where
  "sample_answer =
     \<lparr> answer = ''hello'', sources = Some [Source_string ''a.txt''], context_used = ''hello'',
       num_sources = 1, llm_type = ''groq'', model_used = ''mixtral-8x7b-32768'' \<rparr>"

text \<open>The query text \<^verbatim>\<open>hi\<close>.\<close>

definition query_hi :: js_string where
  "query_hi = [104, 105]"

text \<open>A query of a space, a tab, a line feed, an em space and \<open>U+FEFF\<close>.\<close>

definition query_blank :: js_string where
  "query_blank = [32, 9, 10, 8195, 65279]"

definition sample_tab :: QueryTab where
  "sample_tab = \<lparr> qt_error = None, answerSources = [], abortController = False \<rparr>"

definition sample_world :: "AppState \<times> QueryTab" where
  "sample_world =
     (setCurrentAnswer (Some ''previous answer'') (setCurrentQuery query_hi initial_state),
      sample_tab)"

definition timeout_error :: thrown where
  "timeout_error = AxiosError (Some ''ECONNABORTED'') None ''timeout of 30000ms exceeded''"

definition bad_request_error :: thrown where
  "bad_request_error =
     AxiosError (Some ''ERR_BAD_REQUEST'')
       (Some \<lparr> status = 400, statusText = ''Bad Request'', data_message = None \<rparr>)
       ''Request failed with status code 400''"

definition env_found :: search_env where
  "env_found =
     \<lparr> search_post = (\<lambda>n. Resolved \<lparr> rs_results = Some [sample_result], rs_query = query_hi, rs_count = 1 \<rparr>),
       answer_post = (\<lambda>n. Resolved sample_answer),
       aborted_after_search = False, aborted_after_answer = False \<rparr>"

definition env_empty :: search_env where
  "env_empty =
     env_found\<lparr> search_post := (\<lambda>n. Resolved \<lparr> rs_results = Some [], rs_query = query_hi, rs_count = 0 \<rparr>) \<rparr>"

definition env_search_fails :: search_env where
  "env_search_fails = env_found\<lparr> search_post := (\<lambda>n. Rejected bad_request_error) \<rparr>"

definition env_cancelled :: search_env where
  "env_cancelled =
     env_found\<lparr> answer_post := (\<lambda>n. Rejected timeout_error), aborted_after_answer := True \<rparr>"

definition big_file :: File where
  "big_file = \<lparr> f_name = ''scan.pdf'', f_size = 104857601 \<rparr>"

definition limit_file :: File where
  "limit_file = \<lparr> f_name = ''Report.final.PDF'', f_size = 104857600 \<rparr>"

definition upload_ok :: "File \<Rightarrow> ProcessFileResponse settled" where
  "upload_ok fl = Resolved \<lparr> success = True, pf_message = ''processed'', document = Some sample_doc \<rparr>"

section \<open>Properties of the store\<close>

lemma set_state_simps:
  "set_state [] s = s"
  "set_state (a # as) s = set_state as (assign a s)"
  by (simp_all add: set_state_def)

lemmas setter_defs =
  setSearchResults_def clearSearchResults_def setCurrentQuery_def setCurrentAnswer_def
  setIsSearching_def set_state_simps

lemma removeDocument_documents:
  "documents (removeDocument p s) = filter (\<lambda>d. file_path d \<noteq> p) (documents s)"
  by (simp add: removeDocument_def set_state_fn_def set_state_simps)

lemma removeDocument_eq:
  "removeDocument p s = s\<lparr>documents := filter (\<lambda>d. file_path d \<noteq> p) (documents s)\<rparr>"
  by (simp add: removeDocument_def set_state_fn_def set_state_simps)

lemma removeDocument_twice: "removeDocument p (removeDocument p s) = removeDocument p s"
  by (simp add: removeDocument_eq)

lemma removeDocument_absent:
  assumes "\<forall>d \<in> set (documents s). file_path d \<noteq> p"
  shows "removeDocument p s = s"
proof -
  have "filter (\<lambda>d. file_path d \<noteq> p) (documents s) = documents s"
    using assms by (simp add: filter_id_conv)
  then show ?thesis by (simp add: removeDocument_eq)
qed

text \<open>
  Claim C5.  Deleting a document is idempotent.  On the store, \<open>removeDocument\<close>
  applied twice with the same path gives the state that one application gives, and when
  no document of the list has that path it leaves the state as it is.  The same holds for
  \<open>handleDelete\<close> of the ingestion tab, however the request to the backend settles
  (the same way both times): it removes the document from the list after a request that
  succeeded and leaves the store alone after one that failed.
\<close>

theorem delete_idempotent:
  "removeDocument p (removeDocument p s) = removeDocument p s
   \<and> fst (handleDelete outcome p (fst (handleDelete outcome p s))) = fst (handleDelete outcome p s)
   \<and> ((\<forall>d \<in> set (documents s). file_path d \<noteq> p) \<longrightarrow>
        removeDocument p s = s
        \<and> documents (fst (handleDelete (Resolved ()) p s)) = documents s)"
  by (cases outcome) (simp_all add: handleDelete_def removeDocument_twice removeDocument_absent)

text \<open>
  The store that holds \<open>uploads/a.txt\<close> only: deleting \<open>uploads/b.txt\<close>, which is
  not there, changes nothing.
\<close>

theorem delete_idempotent_witness:
  "removeDocument ''uploads/b.txt'' (addDocument sample_doc initial_state)
     = addDocument sample_doc initial_state
   \<and> documents (fst (handleDelete (Resolved ()) ''uploads/b.txt'' (addDocument sample_doc initial_state)))
     = [sample_doc]"
proof -
  let ?s = "addDocument sample_doc initial_state"
  have d: "documents ?s = [sample_doc]"
    by (simp add: addDocument_def set_state_fn_def set_state_simps initial_state_def)
  have h: "\<forall>d \<in> set (documents ?s). file_path d \<noteq> ''uploads/b.txt''"
    unfolding d by (simp add: sample_doc_def)
  from delete_idempotent [of "''uploads/b.txt''" ?s "Resolved ()"] h d show ?thesis
    by simp
qed

text \<open>
  Claim C9.  The query text, the answer and the search results are not persisted.  For
  every state the object built by \<open>partialize\<close> has exactly the keys
  \<open>activeTab\<close>, \<open>chunkSize\<close>, \<open>chunkOverlap\<close>, \<open>searchK\<close>,
  \<open>scoreThreshold\<close>, \<open>temperature\<close>, \<open>maxTokens\<close> and \<open>selectedModel\<close>, each
  with the value of that field of the state; it has no key \<open>currentQuery\<close>,
  \<open>currentAnswer\<close> or \<open>searchResults\<close>, and it does not depend on these three
  fields.
\<close>

theorem persisted_projection:
  "map fst (partialize s) =
     [''activeTab'', ''chunkSize'', ''chunkOverlap'', ''searchK'', ''scoreThreshold'',
      ''temperature'', ''maxTokens'', ''selectedModel'']
   \<and> map_of (partialize s) ''currentQuery'' = None
   \<and> map_of (partialize s) ''currentAnswer'' = None
   \<and> map_of (partialize s) ''searchResults'' = None
   \<and> map_of (partialize s) ''activeTab'' = Some (PTab (activeTab s))
   \<and> map_of (partialize s) ''chunkSize'' = Some (PNum (chunkSize s))
   \<and> map_of (partialize s) ''chunkOverlap'' = Some (PNum (chunkOverlap s))
   \<and> map_of (partialize s) ''searchK'' = Some (PNum (searchK s))
   \<and> map_of (partialize s) ''scoreThreshold'' = Some (PNum (scoreThreshold s))
   \<and> map_of (partialize s) ''temperature'' = Some (PNum (temperature s))
   \<and> map_of (partialize s) ''maxTokens'' = Some (PNum (maxTokens s))
   \<and> map_of (partialize s) ''selectedModel'' = Some (PStr (selectedModel s))
   \<and> partialize (setSearchResults r (setCurrentAnswer a (setCurrentQuery q s))) = partialize s"
  by (simp add: partialize_def setter_defs)

text \<open>
  Claim C10.  For every state, \<open>clearQueryState\<close> sets \<open>currentQuery\<close> to the empty
  string, \<open>currentAnswer\<close> to null and \<open>searchResults\<close> to the empty list, and
  leaves every other field (\<open>documents\<close>, \<open>stats\<close>, \<open>chunkSize\<close>,
  \<open>chunkOverlap\<close>, \<open>searchK\<close>, \<open>scoreThreshold\<close>, \<open>temperature\<close>,
  \<open>maxTokens\<close>, \<open>selectedModel\<close>, \<open>backendConnected\<close>, \<open>isSearching\<close>, and also
  \<open>activeTab\<close>, \<open>error\<close> and \<open>searchAbortSignal\<close>) as it was.
\<close>

theorem clearQueryState_frame:
  "currentQuery (clearQueryState s) = []
   \<and> currentAnswer (clearQueryState s) = None
   \<and> searchResults (clearQueryState s) = []
   \<and> documents (clearQueryState s) = documents s
   \<and> stats (clearQueryState s) = stats s
   \<and> chunkSize (clearQueryState s) = chunkSize s
   \<and> chunkOverlap (clearQueryState s) = chunkOverlap s
   \<and> searchK (clearQueryState s) = searchK s
   \<and> scoreThreshold (clearQueryState s) = scoreThreshold s
   \<and> temperature (clearQueryState s) = temperature s
   \<and> maxTokens (clearQueryState s) = maxTokens s
   \<and> selectedModel (clearQueryState s) = selectedModel s
   \<and> backendConnected (clearQueryState s) = backendConnected s
   \<and> isSearching (clearQueryState s) = isSearching s
   \<and> activeTab (clearQueryState s) = activeTab s
   \<and> error (clearQueryState s) = error s
   \<and> searchAbortSignal (clearQueryState s) = searchAbortSignal s
   \<and> clearQueryState s = s\<lparr>currentQuery := [], currentAnswer := None, searchResults := []\<rparr>"
  by (simp add: clearQueryState_def set_state_simps)

section \<open>Properties of the retry loop\<close>

lemma shouldRetry_iff: "shouldRetry err a m = (a < m \<and> transient_class err)"
proof (cases err)
  case (AxiosError c r msg)
  then show ?thesis
    by (cases r) (auto simp: shouldRetry_def transient_class_def response_status_def)
qed (simp_all add: shouldRetry_def transient_class_def)

lemma shouldRetry_400:
  "\<not> shouldRetry (AxiosError (Some ''ERR_BAD_REQUEST'') (Some (resp\<lparr>status := 400\<rparr>)) msg) a m"
  by (simp add: shouldRetry_iff transient_class_def)

lemma retry_loop_default:
  "retry_loop DEFAULT_RETRY_CONFIG req post 0 Undefined =
     (case post 0 of
        Resolved resp \<Rightarrow> (Inr resp, [Request req])
      | Rejected err \<Rightarrow>
          if transient_class err then
            (case post 1 of
               Resolved resp \<Rightarrow> (Inr resp, [Request req, Delay 500, Request req])
             | Rejected err' \<Rightarrow>
                 if transient_class err'
                 then (Inl err', [Request req, Delay 500, Request req, Delay 750])
                 else (Inl err', [Request req, Delay 500, Request req]))
          else (Inl err, [Request req]))"
proof -
  have m: "maxRetries DEFAULT_RETRY_CONFIG = 2" "delayMs DEFAULT_RETRY_CONFIG = 500"
    "backoffMultiplier DEFAULT_RETRY_CONFIG = 3 / 2"
    by (simp_all add: DEFAULT_RETRY_CONFIG_def)
  have l2: "retry_loop DEFAULT_RETRY_CONFIG req post (Suc (Suc 0)) e = (Inl e, [])" for e
    by (subst retry_loop.simps) (simp add: m)
  have l1: "retry_loop DEFAULT_RETRY_CONFIG req post (Suc 0) e =
     (case post 1 of
        Resolved resp \<Rightarrow> (Inr resp, [Request req])
      | Rejected err' \<Rightarrow>
          if transient_class err' then (Inl err', [Request req, Delay 750])
          else (Inl err', [Request req]))" for e
    by (subst retry_loop.simps) (simp add: m l2 shouldRetry_iff split: settled.splits)
  show ?thesis
    by (subst retry_loop.simps) (simp add: m l1 shouldRetry_iff split: settled.splits)
qed

lemma retry_loop_events:
  "set (snd (retry_loop cfg req post a le)) \<subseteq> insert (Request req) (range Delay)"
proof (induction cfg req post a le rule: retry_loop.induct)
  case (1 cfg req post a le)
  show ?case
  proof (cases "a < maxRetries cfg")
    case False
    then show ?thesis by (subst retry_loop.simps) simp
  next
    case True
    show ?thesis
    proof (cases "post a")
      case (Resolved r)
      with True show ?thesis by (subst retry_loop.simps) simp
    next
      case (Rejected e)
      show ?thesis
      proof (cases "shouldRetry e a (maxRetries cfg)")
        case False
        with True Rejected show ?thesis by (subst retry_loop.simps) simp
      next
        case sr: True
        from "1.IH"[OF True Rejected sr] True Rejected sr show ?thesis
          by (subst retry_loop.simps) (auto split: prod.splits)
      qed
    qed
  qed
qed

lemma retry_loop_requests_le:
  "length (requests (snd (retry_loop cfg req post a le))) \<le> maxRetries cfg - a"
proof (induction cfg req post a le rule: retry_loop.induct)
  case (1 cfg req post a le)
  show ?case
  proof (cases "a < maxRetries cfg")
    case False
    then show ?thesis by (subst retry_loop.simps) simp
  next
    case True
    show ?thesis
    proof (cases "post a")
      case (Resolved r)
      with True show ?thesis by (subst retry_loop.simps) simp
    next
      case (Rejected e)
      show ?thesis
      proof (cases "shouldRetry e a (maxRetries cfg)")
        case False
        with True Rejected show ?thesis by (subst retry_loop.simps) simp
      next
        case sr: True
        from "1.IH"[OF True Rejected sr] True Rejected sr show ?thesis
          by (subst retry_loop.simps) (auto split: prod.splits)
      qed
    qed
  qed
qed

lemma retry_loop_delays:
  "Delay d \<in> set (snd (retry_loop cfg req post a le)) \<Longrightarrow>
   \<exists>k. a \<le> k \<and> k < maxRetries cfg \<and> d = delayMs cfg * backoffMultiplier cfg ^ k"
proof (induction cfg req post a le rule: retry_loop.induct)
  case (1 cfg req post a le)
  show ?case
  proof (cases "a < maxRetries cfg")
    case False
    with "1.prems" show ?thesis by (subst (asm) retry_loop.simps) simp
  next
    case True
    show ?thesis
    proof (cases "post a")
      case (Resolved r)
      with True "1.prems" show ?thesis by (subst (asm) retry_loop.simps) simp
    next
      case (Rejected e)
      show ?thesis
      proof (cases "shouldRetry e a (maxRetries cfg)")
        case False
        with True Rejected "1.prems" show ?thesis by (subst (asm) retry_loop.simps) simp
      next
        case sr: True
        from "1.prems" True Rejected sr
        have "d = delayMs cfg * backoffMultiplier cfg ^ a
              \<or> Delay d \<in> set (snd (retry_loop cfg req post (a + 1) e))"
          by (subst (asm) retry_loop.simps) (auto split: prod.splits)
        then show ?thesis
        proof
          assume "d = delayMs cfg * backoffMultiplier cfg ^ a"
          with True show ?thesis by blast
        next
          assume "Delay d \<in> set (snd (retry_loop cfg req post (a + 1) e))"
          from "1.IH"[OF True Rejected sr this] obtain k where
            "a + 1 \<le> k" "k < maxRetries cfg" "d = delayMs cfg * backoffMultiplier cfg ^ k"
            by blast
          then show ?thesis by (intro exI [of _ k]) simp
        qed
      qed
    qed
  qed
qed

text \<open>
  Claim C3.  Search and answer generation retry within a fixed bound.  \<open>shouldRetry\<close>
  holds exactly when the attempt number is below the maximum and the error is of a
  transient class (timeout, network error, status of 500 or more, 408, 429); it never
  holds for a response with status 400.  With the default configuration each of the two
  services sends at most two requests, sends the second exactly when the first was
  rejected with a transient error, and waits \<open>500 * 1.5 ^ 0\<close> milliseconds between the
  two.  The second attempt is the last: when it is rejected with a transient error the
  loop still waits \<open>500 * 1.5 ^ 1\<close> milliseconds and then throws that error.
\<close>

theorem bounded_retry_policy:
  fixes sp :: "nat \<Rightarrow> SearchResponse settled" and ap :: "nat \<Rightarrow> AnswerResponse settled"
  shows
  "shouldRetry err attempt m = (attempt < m \<and> transient_class err)
   \<and> \<not> shouldRetry (AxiosError (Some ''ERR_BAD_REQUEST'') (Some (resp\<lparr>status := 400\<rparr>)) msg) attempt m
   \<and> length (requests (snd (apiService_search sp sq))) \<le> 2
   \<and> length (requests (snd (apiService_generateAnswer ap aq))) \<le> 2
   \<and> (length (requests (snd (apiService_search sp sq))) = 2)
       = (case sp 0 of Rejected e \<Rightarrow> transient_class e | Resolved r \<Rightarrow> False)
   \<and> (length (requests (snd (apiService_generateAnswer ap aq))) = 2)
       = (case ap 0 of Rejected e \<Rightarrow> transient_class e | Resolved r \<Rightarrow> False)
   \<and> snd (apiService_search sp sq) =
       (let rq = Request (Post_search sq) in
        case sp 0 of
          Resolved r \<Rightarrow> [rq]
        | Rejected e \<Rightarrow>
            if transient_class e then
              (case sp 1 of
                 Resolved r \<Rightarrow> [rq, Delay (500 * (3 / 2) ^ 0), rq]
               | Rejected e' \<Rightarrow>
                   if transient_class e'
                   then [rq, Delay (500 * (3 / 2) ^ 0), rq, Delay (500 * (3 / 2) ^ 1)]
                   else [rq, Delay (500 * (3 / 2) ^ 0), rq])
            else [rq])
   \<and> snd (apiService_generateAnswer ap aq) =
       (let rq = Request (Post_answer aq) in
        case ap 0 of
          Resolved r \<Rightarrow> [rq]
        | Rejected e \<Rightarrow>
            if transient_class e then
              (case ap 1 of
                 Resolved r \<Rightarrow> [rq, Delay (500 * (3 / 2) ^ 0), rq]
               | Rejected e' \<Rightarrow>
                   if transient_class e'
                   then [rq, Delay (500 * (3 / 2) ^ 0), rq, Delay (500 * (3 / 2) ^ 1)]
                   else [rq, Delay (500 * (3 / 2) ^ 0), rq])
            else [rq])"
proof -
  have a: "shouldRetry err attempt m = (attempt < m \<and> transient_class err)"
    by (rule shouldRetry_iff)
  have b: "\<not> shouldRetry (AxiosError (Some ''ERR_BAD_REQUEST'') (Some (resp\<lparr>status := 400\<rparr>)) msg) attempt m"
    by (rule shouldRetry_400)
  have c: "snd (apiService_search sp sq) =
       (let rq = Request (Post_search sq) in
        case sp 0 of
          Resolved r \<Rightarrow> [rq]
        | Rejected e \<Rightarrow>
            if transient_class e then
              (case sp 1 of
                 Resolved r \<Rightarrow> [rq, Delay (500 * (3 / 2) ^ 0), rq]
               | Rejected e' \<Rightarrow>
                   if transient_class e'
                   then [rq, Delay (500 * (3 / 2) ^ 0), rq, Delay (500 * (3 / 2) ^ 1)]
                   else [rq, Delay (500 * (3 / 2) ^ 0), rq])
            else [rq])"
    by (simp add: apiService_search_def retry_loop_default Let_def split: settled.splits)
  have d: "snd (apiService_generateAnswer ap aq) =
       (let rq = Request (Post_answer aq) in
        case ap 0 of
          Resolved r \<Rightarrow> [rq]
        | Rejected e \<Rightarrow>
            if transient_class e then
              (case ap 1 of
                 Resolved r \<Rightarrow> [rq, Delay (500 * (3 / 2) ^ 0), rq]
               | Rejected e' \<Rightarrow>
                   if transient_class e'
                   then [rq, Delay (500 * (3 / 2) ^ 0), rq, Delay (500 * (3 / 2) ^ 1)]
                   else [rq, Delay (500 * (3 / 2) ^ 0), rq])
            else [rq])"
    by (simp add: apiService_generateAnswer_def retry_loop_default Let_def split: settled.splits)
  have e: "length (requests (snd (apiService_search sp sq))) \<le> 2"
    by (simp add: apiService_search_def retry_loop_default split: settled.splits)
  have f: "length (requests (snd (apiService_generateAnswer ap aq))) \<le> 2"
    by (simp add: apiService_generateAnswer_def retry_loop_default split: settled.splits)
  have g: "(length (requests (snd (apiService_search sp sq))) = 2)
       = (case sp 0 of Rejected e \<Rightarrow> transient_class e | Resolved r \<Rightarrow> False)"
    by (simp add: apiService_search_def retry_loop_default split: settled.splits)
  have h: "(length (requests (snd (apiService_generateAnswer ap aq))) = 2)
       = (case ap 0 of Rejected e \<Rightarrow> transient_class e | Resolved r \<Rightarrow> False)"
    by (simp add: apiService_generateAnswer_def retry_loop_default split: settled.splits)
  from a b c d e f g h show ?thesis by blast
qed

section \<open>Properties of the query tab\<close>

lemmas sample_defs =
  sample_world_def sample_tab_def sample_result_def sample_answer_def initial_state_def
  env_found_def env_empty_def env_search_fails_def env_cancelled_def
  timeout_error_def bad_request_error_def

lemma js_trim_empty_iff: "js_trim q = [] \<longleftrightarrow> (\<forall>c \<in> set q. is_js_whitespace c)"
proof
  assume "js_trim q = []"
  then have a: "\<forall>c \<in> set (dropWhile is_js_whitespace q). is_js_whitespace c"
    by (simp add: js_trim_def)
  have "dropWhile is_js_whitespace q = []"
  proof (rule ccontr)
    assume ne: "dropWhile is_js_whitespace q \<noteq> []"
    then have "\<not> is_js_whitespace (hd (dropWhile is_js_whitespace q))"
      by (rule hd_dropWhile)
    moreover have "hd (dropWhile is_js_whitespace q) \<in> set (dropWhile is_js_whitespace q)"
      using ne by simp
    ultimately show False using a by blast
  qed
  then show "\<forall>c \<in> set q. is_js_whitespace c"
    by simp
next
  assume "\<forall>c \<in> set q. is_js_whitespace c"
  then have d: "dropWhile is_js_whitespace q = []"
    by simp
  show "js_trim q = []" unfolding js_trim_def d by simp
qed

lemma hi_not_blank: "js_trim query_hi \<noteq> []"
  by (simp add: query_hi_def js_trim_def is_js_whitespace_def)

lemma sample_query: "currentQuery (fst sample_world) = query_hi"
  by (simp add: sample_defs setter_defs)

lemma eval_found:
  "handleSearch env_found sample_world =
    ((setIsSearching False (setCurrentAnswer (Some ''hello'')
        (setSearchResults [sample_result] (setIsSearching True (clearSearchResults (fst sample_world))))),
      \<lparr> qt_error = None, answerSources = [''a.txt''], abortController = False \<rparr>),
     [Request (Post_search \<lparr> rq_query = query_hi, rq_k = 5, rq_score_threshold = 0 \<rparr>),
      Request (Post_answer \<lparr> aq_query = query_hi, retrieved_chunks = [sample_result],
                 aq_max_tokens = 2048, aq_temperature = 7 / 10 \<rparr>),
      Toast_success (Text ''Answer generated successfully'')])"
  by (simp add: handleSearch_def generate_phase_def Let_def hi_not_blank sample_query
      apiService_search_def apiService_generateAnswer_def retry_loop_default finally_block_def
      sourceDocs_def source_name_def truthy_def
      sample_defs setter_defs)


lemma eval_empty:
  "handleSearch env_empty sample_world =
    ((setIsSearching False (setSearchResults [] (setCurrentAnswer (Some [])
        (setIsSearching True (clearSearchResults (fst sample_world))))),
      \<lparr> qt_error = Some ''No relevant documents found for this query'',
        answerSources = [], abortController = False \<rparr>),
     [Request (Post_search \<lparr> rq_query = query_hi, rq_k = 5, rq_score_threshold = 0 \<rparr>)])"
  by (simp add: handleSearch_def Let_def hi_not_blank sample_query
      apiService_search_def retry_loop_default finally_block_def truthy_def
      sample_defs setter_defs)

lemma eval_search_fails:
  "handleSearch env_search_fails sample_world =
    ((setIsSearching False (setSearchResults [] (setCurrentAnswer (Some [])
        (setIsSearching True (clearSearchResults (fst sample_world))))),
      \<lparr> qt_error = Some ''Search failed: Invalid request - check your input'',
        answerSources = [], abortController = False \<rparr>),
     [Request (Post_search \<lparr> rq_query = query_hi, rq_k = 5, rq_score_threshold = 0 \<rparr>),
      Console_error ''Search error:'' bad_request_error])"
  by (simp add: handleSearch_def Let_def hi_not_blank sample_query
      apiService_search_def retry_loop_default finally_block_def truthy_def
      transient_class_def status_switch_def
      sample_defs setter_defs)

lemma eval_cancelled:
  "handleSearch env_cancelled sample_world =
    ((setCurrentAnswer (Some [])
        (setSearchResults [sample_result] (setIsSearching True (clearSearchResults (fst sample_world)))),
      \<lparr> qt_error = Some ''Failed to generate answer: Request timeout - backend is not responding'',
        answerSources = [], abortController = True \<rparr>),
     [Request (Post_search \<lparr> rq_query = query_hi, rq_k = 5, rq_score_threshold = 0 \<rparr>),
      Request (Post_answer \<lparr> aq_query = query_hi, retrieved_chunks = [sample_result],
                 aq_max_tokens = 2048, aq_temperature = 7 / 10 \<rparr>),
      Delay 500,
      Request (Post_answer \<lparr> aq_query = query_hi, retrieved_chunks = [sample_result],
                 aq_max_tokens = 2048, aq_temperature = 7 / 10 \<rparr>),
      Delay 750,
      Console_error ''Answer generation error:'' timeout_error])"
  by (simp add: handleSearch_def generate_phase_def Let_def hi_not_blank sample_query
      apiService_search_def apiService_generateAnswer_def retry_loop_default finally_block_def
      truthy_def transient_class_def
      sample_defs setter_defs)

text \<open>
  Claim C8.  A query that is empty or all white space is rejected before anything else
  happens: \<open>handleSearch\<close> shows the toast \<open>Please enter a query\<close>, sends no request
  and returns the store and the component state as they were, so the stored results and
  answer are unchanged.
\<close>

theorem blank_query_rejected:
  assumes "\<forall>c \<in> set (currentQuery s). is_js_whitespace c"
  shows "handleSearch env (s, t) = ((s, t), [Toast_error (Text ''Please enter a query'')])
         \<and> requests (snd (handleSearch env (s, t))) = []
         \<and> searchResults (fst (fst (handleSearch env (s, t)))) = searchResults s
         \<and> currentAnswer (fst (fst (handleSearch env (s, t)))) = currentAnswer s"
proof -
  have "js_trim (currentQuery s) = []"
    using assms by (simp add: js_trim_empty_iff)
  then have "handleSearch env (s, t) = ((s, t), [Toast_error (Text ''Please enter a query'')])"
    by (simp add: handleSearch_def truthy_def)
  then show ?thesis by simp
qed

text \<open>A query of white space only, over the state that holds an answer.\<close>

theorem blank_query_rejected_witness:
  "handleSearch env_found (setCurrentQuery query_blank (fst sample_world), sample_tab)
     = ((setCurrentQuery query_blank (fst sample_world), sample_tab),
        [Toast_error (Text ''Please enter a query'')])
   \<and> currentAnswer (fst (fst (handleSearch env_found
         (setCurrentQuery query_blank (fst sample_world), sample_tab))))
     = Some ''previous answer''"
proof -
  let ?s = "setCurrentQuery query_blank (fst sample_world)"
  have q: "currentQuery ?s = query_blank"
    by (simp add: setter_defs)
  have h: "\<forall>c \<in> set (currentQuery ?s). is_js_whitespace c"
    unfolding q by (simp add: query_blank_def is_js_whitespace_def)
  have a: "currentAnswer ?s = Some ''previous answer''"
    by (simp add: sample_world_def setter_defs)
  from blank_query_rejected [OF h, of env_found sample_tab] a show ?thesis
    by simp
qed

lemma search_has_no_answer_request:
  "Request (Post_answer aq) \<notin> set (snd (apiService_search post data))"
  using retry_loop_events [of DEFAULT_RETRY_CONFIG "Post_search data" post 0 Undefined]
  by (auto simp: apiService_search_def)

lemma generateAnswer_requests:
  "Request (Post_answer aq) \<in> set (snd (apiService_generateAnswer post data)) \<Longrightarrow> aq = data"
  using retry_loop_events [of DEFAULT_RETRY_CONFIG "Post_answer data" post 0 Undefined]
  by (auto simp: apiService_generateAnswer_def)

lemma generate_phase_requests:
  assumes "Request (Post_answer aq) \<in> set (snd (generate_phase env results w))"
  shows "retrieved_chunks aq = results"
proof -
  let ?d = "\<lparr> aq_query = currentQuery (fst w), retrieved_chunks = results,
        aq_max_tokens = maxTokens (fst w), aq_temperature = temperature (fst w) \<rparr>"
  obtain out evs where g: "apiService_generateAnswer (answer_post env) ?d = (out, evs)"
    by (cases "apiService_generateAnswer (answer_post env) ?d")
  from assms g have "Request (Post_answer aq) \<in> set evs"
    by (cases out) (auto simp: generate_phase_def Let_def split: if_splits)
  with g have "Request (Post_answer aq) \<in> set (snd (apiService_generateAnswer (answer_post env) ?d))"
    by simp
  then have "aq = ?d" by (rule generateAnswer_requests)
  then show ?thesis by simp
qed

text \<open>
  Claim C6.  Answer generation is only called with chunks.  Every request for an answer
  that \<open>handleSearch\<close> sends carries a non-empty list of retrieved chunks, and that
  list is the result list the search returned; so when the search returns no results no
  request for an answer is sent.
\<close>

theorem answer_requests_have_chunks:
  assumes "Request (Post_answer aq) \<in> set (snd (handleSearch env w))"
  shows "retrieved_chunks aq \<noteq> []
         \<and> (\<exists>resp. fst (apiService_search (search_post env)
                \<lparr> rq_query = currentQuery (fst w), rq_k = searchK (fst w),
                  rq_score_threshold = scoreThreshold (fst w) \<rparr>) = Inr resp
              \<and> rs_results resp = Some (retrieved_chunks aq))"
proof -
  let ?rq = "\<lparr> rq_query = currentQuery (fst w), rq_k = searchK (fst w),
                rq_score_threshold = scoreThreshold (fst w) \<rparr>"
  obtain out evs where sr: "apiService_search (search_post env) ?rq = (out, evs)"
    by (cases "apiService_search (search_post env) ?rq")
  have noans: "Request (Post_answer aq) \<notin> set evs"
    using search_has_no_answer_request [of aq "search_post env" ?rq] sr by simp
  show ?thesis
  proof (cases out)
    case (Inl e)
    with assms sr noans show ?thesis
      by (auto simp: handleSearch_def Let_def finally_block_def split: if_splits)
  next
    case (Inr resp)
    show ?thesis
    proof (cases "rs_results resp")
      case None
      with assms sr noans Inr show ?thesis
        by (auto simp: handleSearch_def Let_def split: if_splits)
    next
      case (Some rs)
      with assms sr noans Inr have ne: "rs \<noteq> []" and
        "Request (Post_answer aq) \<in> set (snd (generate_phase env rs
           (setSearchResults rs (setIsSearching True (clearSearchResults (fst w))),
            snd w\<lparr>qt_error := None, answerSources := [], abortController := True\<rparr>)))"
        by (auto simp: handleSearch_def Let_def split: if_splits prod.splits)
      then have "retrieved_chunks aq = rs"
        using generate_phase_requests by blast
      with ne sr Inr Some show ?thesis by simp
    qed
  qed
qed

text \<open>A search that finds one chunk: the request for the answer carries that chunk.\<close>

theorem answer_requests_have_chunks_witness:
  "Request (Post_answer \<lparr> aq_query = query_hi, retrieved_chunks = [sample_result],
              aq_max_tokens = 2048, aq_temperature = 7 / 10 \<rparr>)
     \<in> set (snd (handleSearch env_found sample_world))
   \<and> retrieved_chunks \<lparr> aq_query = query_hi, retrieved_chunks = [sample_result],
              aq_max_tokens = 2048, aq_temperature = 7 / 10 \<rparr> \<noteq> []"
proof -
  let ?aq = "\<lparr> aq_query = query_hi, retrieved_chunks = [sample_result],
              aq_max_tokens = 2048, aq_temperature = 7 / 10 \<rparr>"
  have h: "Request (Post_answer ?aq) \<in> set (snd (handleSearch env_found sample_world))"
    by (simp add: eval_found)
  from answer_requests_have_chunks [OF h] h show ?thesis by simp
qed

text \<open>
  Claim C1, as the specification states it: a search with no results is a successful
  outcome and not an error, and is never conflated with a capability error in the state
  recorded.  It fails.  For a search that returns the empty list \<open>handleSearch\<close>
  fills the error field of the query tab, and the store it leaves is the very store it
  leaves after a search rejected with status 400.
\<close>

theorem empty_result_recorded_as_error:
  "qt_error (snd (fst (handleSearch env_empty sample_world))) \<noteq> None
   \<and> rs_results \<lparr> rs_results = Some [], rs_query = query_hi, rs_count = 0 \<rparr> = Some []
   \<and> fst (apiService_search (search_post env_empty) \<lparr> rq_query = query_hi, rq_k = 5, rq_score_threshold = 0 \<rparr>)
       = Inr \<lparr> rs_results = Some [], rs_query = query_hi, rs_count = 0 \<rparr>
   \<and> fst (apiService_search (search_post env_search_fails) \<lparr> rq_query = query_hi, rq_k = 5, rq_score_threshold = 0 \<rparr>)
       = Inl bad_request_error
   \<and> fst (fst (handleSearch env_empty sample_world)) = fst (fst (handleSearch env_search_fails sample_world))"
proof -
  have "apiService_search (search_post env_empty) rq =
          (Inr \<lparr> rs_results = Some [], rs_query = query_hi, rs_count = 0 \<rparr>, [Request (Post_search rq)])" for rq
    by (simp add: apiService_search_def retry_loop_default env_empty_def)
  moreover have "apiService_search (search_post env_search_fails) rq =
          (Inl bad_request_error, [Request (Post_search rq)])" for rq
    by (simp add: apiService_search_def retry_loop_default env_search_fails_def
        transient_class_def bad_request_error_def)
  ultimately show ?thesis
    by (simp add: eval_empty eval_search_fails setter_defs)
qed

text \<open>
  Claim C1, amended.  A search that returns no results (and was not cancelled) is not a
  thrown error: no request for an answer is sent and nothing is logged to the console.
  The query tab records it in its error field with the fixed text
  \<open>No relevant documents found for this query\<close>, and the store gets the empty string
  as answer, the empty result list and \<open>isSearching\<close> false.  A failed search records
  \<open>Search failed: \<close> followed by the message of the error and logs the error to the
  console; it leaves the same store, and the text in the error field is what tells the
  two outcomes apart.
\<close>

theorem empty_result_outcome:
  assumes nonblank: "js_trim (currentQuery s) \<noteq> []"
    and live: "\<not> aborted_after_search env" "\<not> aborted_after_search env'"
    and found: "fst (apiService_search (search_post env)
                  \<lparr> rq_query = currentQuery s, rq_k = searchK s, rq_score_threshold = scoreThreshold s \<rparr>)
                = Inr resp"
    and empty: "rs_results resp = None \<or> rs_results resp = Some []"
    and failed: "fst (apiService_search (search_post env')
                  \<lparr> rq_query = currentQuery s, rq_k = searchK s, rq_score_threshold = scoreThreshold s \<rparr>)
                = Inl err"
  shows "qt_error (snd (fst (handleSearch env (s, t)))) = Some ''No relevant documents found for this query''
     \<and> currentAnswer (fst (fst (handleSearch env (s, t)))) = Some []
     \<and> searchResults (fst (fst (handleSearch env (s, t)))) = []
     \<and> isSearching (fst (fst (handleSearch env (s, t)))) = False
     \<and> (\<forall>aq. Request (Post_answer aq) \<notin> set (snd (handleSearch env (s, t))))
     \<and> (\<forall>m e. Console_error m e \<notin> set (snd (handleSearch env (s, t))))
     \<and> qt_error (snd (fst (handleSearch env' (s, t)))) = Some (''Search failed: '' @ getErrorMessage err)
     \<and> Console_error ''Search error:'' err \<in> set (snd (handleSearch env' (s, t)))
     \<and> qt_error (snd (fst (handleSearch env' (s, t)))) \<noteq> qt_error (snd (fst (handleSearch env (s, t))))
     \<and> fst (fst (handleSearch env' (s, t))) = fst (fst (handleSearch env (s, t)))"
proof -
  let ?rq = "\<lparr> rq_query = currentQuery s, rq_k = searchK s, rq_score_threshold = scoreThreshold s \<rparr>"
  obtain evs where r: "apiService_search (search_post env) ?rq = (Inr resp, evs)"
    using found by (cases "apiService_search (search_post env) ?rq") simp
  obtain evs' where r': "apiService_search (search_post env') ?rq = (Inl err, evs')"
    using failed by (cases "apiService_search (search_post env') ?rq") simp
  have evs: "set evs \<subseteq> insert (Request (Post_search ?rq)) (range Delay)"
    using retry_loop_events [of DEFAULT_RETRY_CONFIG "Post_search ?rq" "search_post env" 0 Undefined] r
    by (simp add: apiService_search_def)
  have h: "handleSearch env (s, t) =
      ((setIsSearching False (setIsSearching False (setSearchResults [] (setCurrentAnswer (Some [])
          (setIsSearching True (clearSearchResults s))))),
        t\<lparr>qt_error := Some ''No relevant documents found for this query'', answerSources := [],
           abortController := False\<rparr>), evs)"
    using nonblank live(1) r empty
    by (auto simp: handleSearch_def Let_def truthy_def finally_block_def)
  have h': "handleSearch env' (s, t) =
      ((setIsSearching False (setSearchResults [] (setCurrentAnswer (Some [])
          (setIsSearching True (clearSearchResults s)))),
        t\<lparr>qt_error := Some (''Search failed: '' @ getErrorMessage err), answerSources := [],
           abortController := False\<rparr>), evs' @ [Console_error ''Search error:'' err])"
    using nonblank live(2) r'
    by (auto simp: handleSearch_def Let_def truthy_def finally_block_def)
  have a: "\<forall>aq. Request (Post_answer aq) \<notin> set evs" using evs by auto
  have b: "\<forall>m e. Console_error m e \<notin> set evs" using evs by auto
  show ?thesis
    unfolding h h' using a b by (simp add: setter_defs)
qed


theorem empty_result_outcome_witness:
  "qt_error (snd (fst (handleSearch env_empty sample_world)))
     = Some ''No relevant documents found for this query''
   \<and> qt_error (snd (fst (handleSearch env_search_fails sample_world)))
     = Some (''Search failed: '' @ getErrorMessage bad_request_error)
   \<and> fst (fst (handleSearch env_search_fails sample_world))
     = fst (fst (handleSearch env_empty sample_world))"
proof -
  let ?s = "fst sample_world"
  let ?rq = "\<lparr> rq_query = currentQuery ?s, rq_k = searchK ?s, rq_score_threshold = scoreThreshold ?s \<rparr>"
  let ?resp = "\<lparr> rs_results = Some [], rs_query = query_hi, rs_count = 0 \<rparr>"
  have w: "sample_world = (?s, sample_tab)" by (simp add: sample_world_def)
  have 1: "js_trim (currentQuery ?s) \<noteq> []" by (simp add: sample_query hi_not_blank)
  have 2: "\<not> aborted_after_search env_empty" by (simp add: env_empty_def env_found_def)
  have 3: "\<not> aborted_after_search env_search_fails"
    by (simp add: env_search_fails_def env_found_def)
  have 4: "fst (apiService_search (search_post env_empty) ?rq) = Inr ?resp"
    by (simp add: apiService_search_def retry_loop_default env_empty_def)
  have 5: "rs_results ?resp = None \<or> rs_results ?resp = Some []" by simp
  have 6: "fst (apiService_search (search_post env_search_fails) ?rq) = Inl bad_request_error"
    by (simp add: apiService_search_def retry_loop_default env_search_fails_def
        transient_class_def bad_request_error_def)
  from empty_result_outcome [OF 1 2 3 4 5 6, of sample_tab] show ?thesis
    unfolding w [symmetric] by simp
qed

text \<open>
  Claim C4.  After cancellation nothing more is to be written to the shared store.  When
  the flag is set while the search is awaited, or while an answer is awaited that then
  arrives, \<open>handleSearch\<close> returns without a further write (the two lemmas below).
  When the awaited answer request is rejected instead, the inner \<^verbatim>\<open>catch\<close> runs
  without looking at the flag: with the flag set, the answer held by the store is
  replaced by the empty string and the error field of the tab is filled.
\<close>

theorem cancelled_answer_failure_still_writes:
  "aborted_after_answer env_cancelled
   \<and> currentAnswer (fst sample_world) = Some ''previous answer''
   \<and> currentAnswer (fst (fst (handleSearch env_cancelled sample_world))) = Some []
   \<and> qt_error (snd sample_world) = None
   \<and> qt_error (snd (fst (handleSearch env_cancelled sample_world)))
       = Some ''Failed to generate answer: Request timeout - backend is not responding''"
proof -
  have "aborted_after_answer env_cancelled" by (simp add: env_cancelled_def)
  moreover have "currentAnswer (fst sample_world) = Some ''previous answer''"
    by (simp add: sample_world_def setter_defs)
  moreover have "qt_error (snd sample_world) = None"
    by (simp add: sample_world_def sample_tab_def)
  ultimately show ?thesis by (simp add: eval_cancelled setter_defs)
qed

lemma cancelled_during_search:
  assumes "js_trim (currentQuery s) \<noteq> []" and "aborted_after_search env"
  shows "fst (handleSearch env (s, t)) =
           (setIsSearching True (clearSearchResults s),
            t\<lparr>qt_error := None, answerSources := [], abortController := True\<rparr>)"
  using assms
  by (auto simp: handleSearch_def Let_def truthy_def finally_block_def split: prod.splits sum.splits)

lemma cancelled_answer_discarded:
  assumes "js_trim (currentQuery s) \<noteq> []" and "\<not> aborted_after_search env"
    and "aborted_after_answer env"
    and "fst (apiService_search (search_post env)
                \<lparr> rq_query = currentQuery s, rq_k = searchK s, rq_score_threshold = scoreThreshold s \<rparr>)
         = Inr resp"
    and "rs_results resp = Some rs" and "rs \<noteq> []"
    and "fst (apiService_generateAnswer (answer_post env)
                \<lparr> aq_query = currentQuery s, retrieved_chunks = rs,
                  aq_max_tokens = maxTokens s, aq_temperature = temperature s \<rparr>)
         = Inr a"
  shows "fst (handleSearch env (s, t)) =
           (setSearchResults rs (setIsSearching True (clearSearchResults s)),
            t\<lparr>qt_error := None, answerSources := [], abortController := True\<rparr>)"
  using assms
  by (auto simp: handleSearch_def generate_phase_def Let_def truthy_def finally_block_def setter_defs
      split: prod.splits sum.splits)

section \<open>Properties of the upload component\<close>

lemma uploadFiles_requests:
  "Request (Post_upload f) \<in> set (snd (uploadFiles upload fs s)) \<Longrightarrow> f \<in> set fs"
proof (induction fs arbitrary: s)
  case Nil
  then show ?case by simp
next
  case (Cons g gs)
  obtain s1 evs1 where u: "upload_one upload g s = (s1, evs1)"
    by (cases "upload_one upload g s")
  obtain s2 evs2 where r: "uploadFiles upload gs s1 = (s2, evs2)"
    by (cases "uploadFiles upload gs s1")
  from Cons.prems u r have "Request (Post_upload f) \<in> set evs1 \<or> Request (Post_upload f) \<in> set evs2"
    by simp
  then show ?case
  proof
    assume "Request (Post_upload f) \<in> set evs1"
    with u have "f = g"
      by (auto simp: upload_one_def split: settled.splits option.splits if_splits)
    then show ?thesis by simp
  next
    assume "Request (Post_upload f) \<in> set evs2"
    with r Cons.IH [of s1] show ?thesis by simp
  qed
qed

lemma validateFile_toasts:
  "Request r \<notin> set (snd (validateFile fmts file))"
  by (simp add: validateFile_def Let_def)

lemma handleFilesSelected_requests:
  assumes "Request (Post_upload f) \<in> set (snd (handleFilesSelected fmts upload files s))"
  shows "f \<in> set files \<and> fst (validateFile fmts f)"
proof -
  let ?valid = "filter (\<lambda>file. fst (validateFile fmts file)) files"
  let ?toasts = "concat (map (\<lambda>file. snd (validateFile fmts file)) files)"
  have t: "Request (Post_upload f) \<notin> set ?toasts"
    using validateFile_toasts by auto
  obtain s' evs where u: "uploadFiles upload ?valid s = (s', evs)"
    by (cases "uploadFiles upload ?valid s")
  from assms t u have "Request (Post_upload f) \<in> set evs"
    by (auto simp: handleFilesSelected_def Let_def split: if_splits)
  with u have "Request (Post_upload f) \<in> set (snd (uploadFiles upload ?valid s))" by simp
  then have "f \<in> set ?valid" by (rule uploadFiles_requests)
  then show ?thesis by simp
qed

lemma ext_limit_file: "file_extension limit_file = ''.pdf''"
  by (simp add: file_extension_def limit_file_def pop_def toLowerCase_def lower_char_def Let_def char_of_def bit_Suc_0_iff)

text \<open>
  Claim C7.  A file of more than 100 MB (\<open>100 * 1024 * 1024\<close> bytes) is rejected by
  \<open>validateFile\<close> with the toast of the size limit, and \<open>handleFilesSelected\<close>
  sends no upload request for it, whatever else was selected.  A file of at most that
  size whose extension is one of the supported formats passes validation, the size
  check included.
\<close>

theorem size_limit_enforced:
  "(f_size file > 100 * 1024 * 1024 \<longrightarrow>
      validateFile fmts file = (False, [Toast_error (File_exceeds_limit (f_name file) 100 (f_size file))])
      \<and> Request (Post_upload file) \<notin> set (snd (handleFilesSelected fmts upload files s)))
   \<and> (f_size file \<le> 100 * 1024 * 1024
      \<and> (\<exists>fmt \<in> set fmts. toLowerCase (extension fmt) = toLowerCase (file_extension file)) \<longrightarrow>
      validateFile fmts file = (True, []))"
proof (intro conjI impI)
  assume big: "f_size file > 100 * 1024 * 1024"
  then show v: "validateFile fmts file = (False, [Toast_error (File_exceeds_limit (f_name file) 100 (f_size file))])"
    by (simp add: validateFile_def maxSizeMB_def Let_def)
  show "Request (Post_upload file) \<notin> set (snd (handleFilesSelected fmts upload files s))"
    using handleFilesSelected_requests [of "file" fmts upload files s] v by auto
next
  assume "f_size file \<le> 100 * 1024 * 1024
      \<and> (\<exists>fmt \<in> set fmts. toLowerCase (extension fmt) = toLowerCase (file_extension file))"
  then show "validateFile fmts file = (True, [])"
    by (auto simp: validateFile_def maxSizeMB_def Let_def list_ex_iff)
qed

text \<open>
  A PDF of one byte more than the limit is rejected and not uploaded; a PDF of exactly
  the limit, with its extension in capitals, passes.
\<close>

theorem size_limit_enforced_witness:
  "validateFile DEFAULT_FORMATS big_file
     = (False, [Toast_error (File_exceeds_limit ''scan.pdf'' 100 104857601)])
   \<and> Request (Post_upload big_file)
       \<notin> set (snd (handleFilesSelected DEFAULT_FORMATS upload_ok [big_file, limit_file] initial_state))
   \<and> validateFile DEFAULT_FORMATS limit_file = (True, [])"
proof -
  have b: "f_size big_file > 100 * 1024 * 1024" by (simp add: big_file_def)
  have l: "f_size limit_file \<le> 100 * 1024 * 1024
           \<and> (\<exists>fmt \<in> set DEFAULT_FORMATS.
                 toLowerCase (extension fmt) = toLowerCase (file_extension limit_file))"
    unfolding ext_limit_file
    by (simp add: limit_file_def DEFAULT_FORMATS_def toLowerCase_def lower_char_def)
  from size_limit_enforced [of big_file DEFAULT_FORMATS upload_ok "[big_file, limit_file]" initial_state]
    size_limit_enforced [of limit_file DEFAULT_FORMATS upload_ok "[]" initial_state] b l
  show ?thesis by (simp add: big_file_def)
qed

section \<open>Properties of the chunker\<close>

lemma ceil_step:
  fixes m d :: nat
  assumes "0 < d" and "0 < m"
  shows "(m + d - 1) div d = 1 + ((m - d) + d - 1) div d"
proof (cases "m \<le> d")
  case True
  then have "(m - d) + d - 1 = d - 1" by simp
  moreover have "(d - 1) div d = 0" using assms by simp
  moreover have "(m + d - 1) div d = 1"
    using assms True by (intro div_nat_eqI) simp_all
  ultimately show ?thesis by simp
next
  case False
  then have e: "(m - d) + d - 1 = m - 1" by simp
  have eq: "m + d - 1 = (m - 1) + d" using assms by arith
  have "((m - 1) + d) div d = (m - 1) div d + 1"
    using assms(1) by simp
  then show ?thesis unfolding e eq by simp
qed

lemma chunk_from_last:
  assumes "O' < C" and "length doc \<le> start + C"
  shows "chunk_from C O' doc idx start =
           [\<lparr> ch_index = idx, ch_offset = start, ch_text = take C (drop start doc) \<rparr>]"
  using assms by (subst chunk_from.simps) simp

lemma chunk_from_step:
  assumes "O' < C" and "\<not> length doc \<le> start + C"
  shows "chunk_from C O' doc idx start =
           \<lparr> ch_index = idx, ch_offset = start, ch_text = take C (drop start doc) \<rparr>
             # chunk_from C O' doc (idx + 1) (start + (C - O'))"
  using assms by (subst chunk_from.simps) simp

lemma chunk_from_length:
  assumes "O' < C"
  shows "length (chunk_from C O' doc idx start) =
           1 + (length doc - (start + C) + (C - O') - 1) div (C - O')"
  using assms
proof (induction C "O'" doc idx start rule: chunk_from.induct)
  case (1 C O' doc idx start)
  define d where "d = C - O'"
  define L where "L = length doc"
  have d0: "0 < d" using "1.prems" by (simp add: d_def)
  show ?case
  proof (cases "L \<le> start + C")
    case True
    then have "chunk_from C O' doc idx start =
           [\<lparr> ch_index = idx, ch_offset = start, ch_text = take C (drop start doc) \<rparr>]"
      using "1.prems" by (intro chunk_from_last) (simp_all add: L_def)
    moreover have "(L - (start + C) + d - 1) div d = 0"
      using True d0 by simp
    ultimately show ?thesis unfolding d_def [symmetric] L_def [symmetric] by simp
  next
    case False
    define m where "m = L - (start + C)"
    have m0: "0 < m" using False by (simp add: m_def)
    have nle: "\<not> length doc \<le> start + C" using False by (simp add: L_def)
    have ncfg: "\<not> C \<le> O'" using "1.prems" by simp
    have ih: "length (chunk_from C O' doc (idx + 1) (start + (C - O'))) =
                1 + (length doc - (start + (C - O') + C) + (C - O') - 1) div (C - O')"
      using "1.IH" [OF ncfg nle "1.prems"] .
    have "length doc - (start + (C - O') + C) = m - d"
      unfolding m_def d_def L_def using "1.prems" by arith
    with ih have ih': "length (chunk_from C O' doc (idx + 1) (start + (C - O'))) =
                1 + (m - d + d - 1) div d"
      unfolding d_def by simp
    have "length (chunk_from C O' doc idx start) =
            1 + length (chunk_from C O' doc (idx + 1) (start + (C - O')))"
      using chunk_from_step [OF "1.prems" nle] by simp
    also have "\<dots> = 1 + (1 + (m - d + d - 1) div d)"
      using ih' by simp
    also have "\<dots> = 1 + (m + d - 1) div d"
      using ceil_step [OF d0 m0] by simp
    finally show ?thesis unfolding m_def d_def L_def .
  qed
qed

lemma chunk_from_nth:
  assumes "O' < C" and "i < length (chunk_from C O' doc idx start)"
  shows "chunk_from C O' doc idx start ! i =
           \<lparr> ch_index = idx + i, ch_offset = start + i * (C - O'),
             ch_text = take C (drop (start + i * (C - O')) doc) \<rparr>"
  using assms
proof (induction C "O'" doc idx start arbitrary: i rule: chunk_from.induct)
  case (1 C O' doc idx start)
  show ?case
  proof (cases "length doc \<le> start + C")
    case True
    from chunk_from_last [OF "1.prems"(1) True] "1.prems"(2) show ?thesis
      by simp
  next
    case False
    have ncfg: "\<not> C \<le> O'" using "1.prems" by simp
    note step = chunk_from_step [OF "1.prems"(1) False, of idx]
    show ?thesis
    proof (cases i)
      case 0
      with step show ?thesis by simp
    next
      case (Suc j)
      with step "1.prems"(2) have j: "j < length (chunk_from C O' doc (idx + 1) (start + (C - O')))"
        by simp
      have o: "start + (C - O') + j * (C - O') = start + i * (C - O')"
        unfolding Suc by simp
      have "chunk_from C O' doc idx start ! i
              = chunk_from C O' doc (idx + 1) (start + (C - O')) ! j"
        unfolding step Suc by simp
      also have "\<dots> = \<lparr> ch_index = idx + 1 + j, ch_offset = start + (C - O') + j * (C - O'),
             ch_text = take C (drop (start + (C - O') + j * (C - O')) doc) \<rparr>"
        by (rule "1.IH" [OF ncfg False "1.prems"(1) j])
      also have "\<dots> = \<lparr> ch_index = idx + i, ch_offset = start + i * (C - O'),
             ch_text = take C (drop (start + i * (C - O')) doc) \<rparr>"
        unfolding o by (simp add: Suc)
      finally show ?thesis .
    qed
  qed
qed


lemma nat_ceiling_div:
  fixes a d :: nat
  assumes "0 < d"
  shows "\<lceil>real a / real d\<rceil> = int ((a + d - 1) div d)"
proof (rule ceiling_unique)
  define q where "q = (a + d - 1) div d"
  have lo: "q * d \<le> a + d - 1" unfolding q_def by simp
  have hi: "a + d - 1 < (q + 1) * d"
    unfolding q_def using assms
    by (metis add.commute div_mult_mod_eq mod_less_divisor mult.commute
        nat_add_left_cancel_less Suc_eq_plus1 mult_Suc)
  show "real a / real d \<le> of_int (int ((a + d - 1) div d))"
  proof -
    from hi have "a \<le> q * d" using assms by simp
    then have "real a \<le> real q * real d" by (metis of_nat_le_iff of_nat_mult)
    then have "real a / real d \<le> real q" using assms by (simp add: divide_le_eq)
    then show ?thesis by (simp add: q_def)
  qed
  show "of_int (int ((a + d - 1) div d)) - 1 < real a / real d"
  proof -
    from lo have "q * d < a + d" using assms by simp
    then have "real q * real d < real a + real d" by (metis of_nat_less_iff of_nat_mult of_nat_add)
    then have "(real q - 1) * real d < real a" by (simp add: algebra_simps)
    then have "real q - 1 < real a / real d" using assms by (simp add: less_divide_eq)
    then show ?thesis by (simp add: q_def)
  qed
qed

lemma chunk_from_count:
  assumes "O' < C" and "C < length doc"
  shows "int (length (chunk_from C O' doc 0 0))
           = \<lceil>(real (length doc) - real O') / (real C - real O')\<rceil>"
proof -
  define d where "d = C - O'"
  define a where "a = length doc - O'"
  have d0: "0 < d" using assms by (simp add: d_def)
  have "length (chunk_from C O' doc 0 0) = 1 + (length doc - C + d - 1) div d"
    using chunk_from_length [OF assms(1), of doc 0 0] by (simp add: d_def)
  also have "length doc - C + d - 1 = (a - 1) + 0" 
    unfolding a_def d_def using assms by arith
  also have "1 + (a - 1 + 0) div d = (a - 1 + d) div d"
    using d0 by simp
  also have "a - 1 + d = a + d - 1"
    unfolding a_def using assms by arith
  finally have "int (length (chunk_from C O' doc 0 0)) = int ((a + d - 1) div d)"
    by simp
  also have "\<dots> = \<lceil>real a / real d\<rceil>"
    using nat_ceiling_div [OF d0, of a] by simp
  also have "real a = real (length doc) - real O'"
    unfolding a_def using assms by simp
  also have "real d = real C - real O'"
    unfolding d_def using assms by simp
  finally show ?thesis .
qed

lemma chunker_Inr:
  assumes "O' < C"
  shows "chunker C O' doc = Inr (if doc = [] then [] else chunk_from C O' doc 0 0)"
  using assms by (simp add: chunker_def)

lemma chunk_from_nonempty:
  assumes "O' < C"
  shows "chunk_from C O' doc idx start \<noteq> []"
proof -
  have "0 < length (chunk_from C O' doc idx start)"
    unfolding chunk_from_length [OF assms] by simp
  then show ?thesis by simp
qed

lemma ingest_2400:
  "ingest_text 1000 200 (replicate 2400 c) =
     Inr [ \<lparr> ch_index = 0, ch_offset = 0, ch_text = replicate 1000 c \<rparr>,
           \<lparr> ch_index = 1, ch_offset = 800, ch_text = replicate 1000 c \<rparr>,
           \<lparr> ch_index = 2, ch_offset = 1600, ch_text = replicate 800 c \<rparr> ]"
proof -
  have o: "(200::nat) < 1000" by simp
  have ne: "replicate 2400 c \<noteq> []" by simp
  have 3: "chunk_from 1000 200 (replicate 2400 c) 2 1600
             = [\<lparr> ch_index = 2, ch_offset = 1600, ch_text = replicate 800 c \<rparr>]"
    by (subst chunk_from_last [OF o]) simp_all
  have 2: "chunk_from 1000 200 (replicate 2400 c) 1 800
             = \<lparr> ch_index = 1, ch_offset = 800, ch_text = replicate 1000 c \<rparr>
                 # chunk_from 1000 200 (replicate 2400 c) 2 1600"
    by (subst chunk_from_step [OF o]) (simp_all add: numeral_2_eq_2)
  have 1: "chunk_from 1000 200 (replicate 2400 c) 0 0
             = \<lparr> ch_index = 0, ch_offset = 0, ch_text = replicate 1000 c \<rparr>
                 # chunk_from 1000 200 (replicate 2400 c) 1 800"
    by (subst chunk_from_step [OF o]) simp_all
  show ?thesis
    unfolding ingest_text_def chunker_Inr [OF o] 1 2 3 using ne by simp
qed

text \<open>
  Claim C2.  For a chunk size \<open>C\<close> and an overlap \<open>O < C\<close>, a text of length
  \<open>L > C\<close> is cut into \<open>ceil ((L - O) / (C - O))\<close> chunks; a text with
  \<open>0 < L \<le> C\<close> gives exactly one chunk, the whole text; the chunker gives zero
  chunks for the empty text only, and ingestion rejects the empty text as an empty
  document instead of returning zero chunks; and the chunk of index \<open>i\<close> starts at
  offset \<open>i * (C - O)\<close>, so each offset is \<open>C - O\<close> beyond the one before.
\<close>

theorem chunk_count:
  assumes "O' < C"
  shows
    "(C < length doc \<longrightarrow>
        (\<exists>cs. ingest_text C O' doc = Inr cs
           \<and> int (length cs) = \<lceil>(real (length doc) - real O') / (real C - real O')\<rceil>))
     \<and> (0 < length doc \<and> length doc \<le> C \<longrightarrow>
          ingest_text C O' doc = Inr [\<lparr> ch_index = 0, ch_offset = 0, ch_text = doc \<rparr>])
     \<and> ((chunker C O' doc = Inr []) = (doc = []))
     \<and> (doc = [] \<longrightarrow> ingest_text C O' doc = Inl Empty_document)
     \<and> (\<forall>cs i. ingest_text C O' doc = Inr cs \<and> i < length cs \<longrightarrow>
           ch_index (cs ! i) = i \<and> ch_offset (cs ! i) = i * (C - O')
           \<and> ch_text (cs ! i) = take C (drop (i * (C - O')) doc))"
proof (intro conjI impI allI)
  assume "C < length doc"
  then have ne: "doc \<noteq> []" by auto
  have "ingest_text C O' doc = Inr (chunk_from C O' doc 0 0)"
    using ne chunk_from_nonempty [OF assms] by (simp add: ingest_text_def chunker_Inr [OF assms])
  moreover note chunk_from_count [OF assms \<open>C < length doc\<close>]
  ultimately show "\<exists>cs. ingest_text C O' doc = Inr cs
           \<and> int (length cs) = \<lceil>(real (length doc) - real O') / (real C - real O')\<rceil>"
    by blast
next
  assume a: "0 < length doc \<and> length doc \<le> C"
  then have ne: "doc \<noteq> []" by auto
  have "chunk_from C O' doc 0 0 = [\<lparr> ch_index = 0, ch_offset = 0, ch_text = doc \<rparr>]"
    using chunk_from_last [OF assms, of doc 0 0] a by simp
  then show "ingest_text C O' doc = Inr [\<lparr> ch_index = 0, ch_offset = 0, ch_text = doc \<rparr>]"
    using ne by (simp add: ingest_text_def chunker_Inr [OF assms])
next
  show "(chunker C O' doc = Inr []) = (doc = [])"
    using chunk_from_nonempty [OF assms] by (simp add: chunker_Inr [OF assms])
next
  assume "doc = []"
  then show "ingest_text C O' doc = Inl Empty_document"
    by (simp add: ingest_text_def chunker_Inr [OF assms])
next
  fix cs i
  assume a: "ingest_text C O' doc = Inr cs \<and> i < length cs"
  then have cs: "cs = chunk_from C O' doc 0 0"
    by (auto simp: ingest_text_def chunker_Inr [OF assms] split: if_splits)
  with a have "i < length (chunk_from C O' doc 0 0)" by simp
  from chunk_from_nth [OF assms this] cs
  show "ch_index (cs ! i) = i" "ch_offset (cs ! i) = i * (C - O')"
    "ch_text (cs ! i) = take C (drop (i * (C - O')) doc)"
    by simp_all
qed

text \<open>
  A text of 2400 characters with chunk size 1000 and overlap 200 gives three chunks, at
  the offsets 0, 800 and 1600; a text of five characters gives one; the empty text is
  rejected.
\<close>

theorem chunk_count_witness:
  "(\<exists>cs. ingest_text 1000 200 (replicate 2400 CHR ''a'') = Inr cs \<and> int (length cs) = 3
         \<and> map ch_offset cs = [0, 800, 1600])
   \<and> ingest_text 1000 200 ''hello'' = Inr [\<lparr> ch_index = 0, ch_offset = 0, ch_text = ''hello'' \<rparr>]
   \<and> ingest_text 1000 200 [] = Inl Empty_document"
proof -
  have o: "(200::nat) < 1000" by simp
  have big: "1000 < length (replicate 2400 CHR ''a'')" by simp
  have small: "0 < length ''hello'' \<and> length ''hello'' \<le> 1000" by simp
  have c: "\<lceil>(real (length (replicate 2400 CHR ''a'')) - real 200) / (real 1000 - real 200)\<rceil> = 3"
    by (simp add: ceiling_eq_iff)
  from chunk_count [OF o, of "replicate 2400 CHR ''a''"] big
  obtain cs where cs: "ingest_text 1000 200 (replicate 2400 CHR ''a'') = Inr cs"
    and n: "int (length cs) = \<lceil>(real (length (replicate 2400 CHR ''a'')) - real 200) / (real 1000 - real 200)\<rceil>"
    by blast
  from cs have "map ch_offset cs = [0, 800, 1600]"
    by (auto simp: ingest_2400)
  with cs n c have 1: "\<exists>cs. ingest_text 1000 200 (replicate 2400 CHR ''a'') = Inr cs
      \<and> int (length cs) = 3 \<and> map ch_offset cs = [0, 800, 1600]"
    by simp
  from chunk_count [OF o, of "''hello''"] small
  have 2: "ingest_text 1000 200 ''hello'' = Inr [\<lparr> ch_index = 0, ch_offset = 0, ch_text = ''hello'' \<rparr>]"
    by blast
  from chunk_count [OF o, of "[]"]
  have 3: "ingest_text 1000 200 [] = Inl Empty_document"
    by blast
  from 1 2 3 show ?thesis by blast
qed

end
